theory Spec2Isabelle
  imports Main
begin

section \<open>Python strings and integers\<close>

text \<open>
  A Python \<^verbatim>\<open>str\<close> is a sequence of code points. It is modelled as a \<^typ>\<open>string\<close>,
  each \<^typ>\<open>char\<close> standing for the code point of the same number (0 to 255).
  \<^verbatim>\<open>len\<close> is \<^const>\<open>length\<close>, slicing \<^verbatim>\<open>s[:n]\<close> and \<^verbatim>\<open>s[n:]\<close> are
  \<^const>\<open>take\<close> and \<^const>\<open>drop\<close>.
\<close>

definition BACKSLASH :: char where "BACKSLASH = CHR 0x5C"
definition NEWLINE :: char where "NEWLINE = CHR 0x0A"
definition CR :: char where "CR = CHR 0x0D"

definition CRLF :: string where "CRLF = [CR, NEWLINE]"

text \<open>\<^verbatim>\<open>sep.join(parts)\<close>\<close>

fun py_join :: "string \<Rightarrow> string list \<Rightarrow> string" where
  "py_join sep [] = []"
| "py_join sep [x] = x"
| "py_join sep (x # y # ys) = x @ sep @ py_join sep (y # ys)"

text \<open>\<^verbatim>\<open>s.replace(c, new)\<close> for a one-character \<^verbatim>\<open>c\<close>: every occurrence, left to right.\<close>

fun replace_char :: "char \<Rightarrow> string \<Rightarrow> string \<Rightarrow> string" where
  "replace_char c new [] = []"
| "replace_char c new (x # xs) = (if x = c then new else [x]) @ replace_char c new xs"

text \<open>\<^verbatim>\<open>str(n)\<close> and \<^verbatim>\<open>f"{n}"\<close> of an integer: decimal, no padding.\<close>

definition digit_char :: "nat \<Rightarrow> char" where
  "digit_char d = char_of (48 + d)"

function str_nat :: "nat \<Rightarrow> string" where
  "str_nat n = (if n < 10 then [digit_char n] else str_nat (n div 10) @ [digit_char (n mod 10)])"
  by pat_completeness auto
termination
  by (relation "measure id") auto

declare str_nat.simps [simp del]

definition str_int :: "int \<Rightarrow> string" where
  "str_int i = (if i < 0 then CHR ''-'' # str_nat (nat (- i)) else str_nat (nat i))"

section \<open>Calendar text: humanize_duration\<close>

text \<open>
  A \<^verbatim>\<open>timedelta\<close> is a whole number of microseconds. \<^verbatim>\<open>delta.total_seconds()\<close> is the
  true division of that number by \<open>10\<^sup>6\<close>: the quotient rounded to the nearest double
  (ties to even), and \<^verbatim>\<open>int(...)\<close> truncates the double towards zero.

  \<open>truediv_int p q\<close> is \<^verbatim>\<open>int(p / q)\<close> for \<open>p \<ge> 0\<close> and \<open>q > 0\<close>: with \<open>e\<close> the exponent
  that puts \<open>p / (q * 2\<^sup>e)\<close> in \<open>[2\<^sup>5\<^sup>2, 2\<^sup>5\<^sup>3)\<close>, the double is \<open>m * 2\<^sup>e\<close> for \<open>m\<close> the
  rounded quotient (the quotients here are far from the overflow and subnormal ranges).
\<close>

type_synonym timedelta = int

text \<open>\<^verbatim>\<open>n.bit_length()\<close>\<close>

function bit_length :: "nat \<Rightarrow> nat" where
  "bit_length n = (if n = 0 then 0 else Suc (bit_length (n div 2)))"
  by pat_completeness auto
termination
  by (relation "measure id") auto

declare bit_length.simps [simp del]

definition round_half_even :: "nat \<Rightarrow> nat \<Rightarrow> nat" where
  "round_half_even p q =
     (let d = p div q; r = p mod q
      in if 2 * r < q then d else if q < 2 * r then d + 1
         else if even d then d else d + 1)"

definition truediv_int :: "nat \<Rightarrow> nat \<Rightarrow> nat" where
  "truediv_int p q =
     (if p = 0 then 0
      else let K = 53 + bit_length q;
               b = bit_length (p * 2 ^ K div q);
               e = int b - int K - 53
           in if 0 \<le> e then round_half_even p (q * 2 ^ nat e) * 2 ^ nat e
              else round_half_even (p * 2 ^ nat (- e)) q div 2 ^ nat (- e))"

definition total_seconds_int :: "timedelta \<Rightarrow> int" where
  "total_seconds_int delta =
     (if delta < 0 then - int (truediv_int (nat (- delta)) 1000000)
      else int (truediv_int (nat delta) 1000000))"

definition humanize_duration :: "timedelta \<Rightarrow> string" where
  "humanize_duration delta =
     (let seconds0 = total_seconds_int delta;
          seconds = (if seconds0 < 0 then 0 else seconds0);
          hours = seconds div 3600; rem = seconds mod 3600;
          minutes = rem div 60; secs = rem mod 60;
          parts1 = (if hours \<noteq> 0 then [str_int hours @ ''h''] else []);
          parts2 = (if minutes \<noteq> 0 then parts1 @ [str_int minutes @ ''m''] else parts1);
          parts3 = (if secs \<noteq> 0 \<and> parts2 = [] then parts2 @ [str_int secs @ ''s''] else parts2);
          joined = py_join '' '' parts3
      in if joined \<noteq> [] then joined else ''0m'')"

text \<open>
  The rendering the specification describes, written from its words: the duration in
  whole seconds (the microseconds divided by \<open>10\<^sup>6\<close>, rounded down), clamped to zero if
  negative; whole hours and whole minutes, zero components omitted; the seconds only
  when hours and minutes are both zero; \<open>0m\<close> when everything is zero.
\<close>

definition humanize_spec :: "timedelta \<Rightarrow> string" where
  "humanize_spec delta =
     (let s = max 0 (delta div 1000000);
          h = s div 3600; m = (s mod 3600) div 60; sec = s mod 60
      in if h \<noteq> 0 \<and> m \<noteq> 0 then str_int h @ ''h '' @ str_int m @ ''m''
         else if h \<noteq> 0 then str_int h @ ''h''
         else if m \<noteq> 0 then str_int m @ ''m''
         else if sec \<noteq> 0 then str_int sec @ ''s''
         else ''0m'')"

section \<open>Calendar text: escape_ics_text\<close>

definition escape_ics_text :: "string \<Rightarrow> string" where
  "escape_ics_text v =
     replace_char NEWLINE [BACKSLASH, CHR ''n'']
       (replace_char (CHR '','') [BACKSLASH, CHR '','']
         (replace_char (CHR '';'') [BACKSLASH, CHR '';'']
           (replace_char BACKSLASH [BACKSLASH, BACKSLASH] v)))"

text \<open>
  What a reader of the escaped text sees: a backslash starts a two-character escape
  (of a backslash, a semicolon, a comma, or the letter n for a newline); any other
  character stands for itself. \<open>unescaped_free\<close> holds when, read so, the text has no
  semicolon, comma or newline outside an escape, and no dangling or unknown escape.
\<close>

fun unescaped_free :: "string \<Rightarrow> bool" where
  "unescaped_free [] = True"
| "unescaped_free [c] = (c \<noteq> BACKSLASH \<and> c \<noteq> CHR '';'' \<and> c \<noteq> CHR '','' \<and> c \<noteq> NEWLINE)"
| "unescaped_free (c # d # cs) =
     (if c = BACKSLASH
      then (d = BACKSLASH \<or> d = CHR '';'' \<or> d = CHR '','' \<or> d = CHR ''n'') \<and> unescaped_free cs
      else c \<noteq> CHR '';'' \<and> c \<noteq> CHR '','' \<and> c \<noteq> NEWLINE \<and> unescaped_free (d # cs))"

text \<open>The escape of one character, as a single left-to-right pass would produce it.\<close>

definition escape_one :: "char \<Rightarrow> string" where
  "escape_one c =
     (if c = BACKSLASH then [BACKSLASH, BACKSLASH]
      else if c = CHR '';'' then [BACKSLASH, CHR '';'']
      else if c = CHR '','' then [BACKSLASH, CHR '','']
      else if c = NEWLINE then [BACKSLASH, CHR ''n'']
      else [c])"

section \<open>Calendar text: fold_ics_line\<close>

text \<open>
  The \<^verbatim>\<open>while remainder\<close> loop of \<^verbatim>\<open>fold_ics_line\<close>: one segment, a space and up to
  74 characters, for each round.
\<close>

function fold_rest :: "string \<Rightarrow> string list" where
  "fold_rest remainder =
     (if remainder = [] then []
      else (CHR '' '' # take 74 remainder) # fold_rest (drop 74 remainder))"
  by pat_completeness auto
termination
  by (relation "measure length") auto

declare fold_rest.simps [simp del]

definition fold_segments :: "string \<Rightarrow> string list" where
  "fold_segments line = take 75 line # fold_rest (drop 75 line)"

definition fold_ics_line :: "string \<Rightarrow> string" where
  "fold_ics_line line =
     (if length line \<le> 75 then line else py_join CRLF (fold_segments line))"

text \<open>
  Unfolding, as a calendar reader does it on the folded text: the first 75 characters,
  then, as long as text is left, skip the three characters of a line break (carriage
  return, linefeed, space) and keep the next 74.
\<close>

function unfold_rest :: "string \<Rightarrow> string" where
  "unfold_rest s =
     (if s = [] then [] else take 74 (drop 3 s) @ unfold_rest (drop 77 s))"
  by pat_completeness auto
termination
  by (relation "measure length") auto

declare unfold_rest.simps [simp del]

definition unfold_ics_line :: "string \<Rightarrow> string" where
  "unfold_ics_line s = take 75 s @ unfold_rest (drop 75 s)"

text \<open>A line of 160 characters, for the examples.\<close>

definition long_line :: string where
  "long_line = replicate 75 (CHR ''a'') @ replicate 74 (CHR ''b'') @ replicate 11 (CHR ''c'')"

section \<open>Dates and times\<close>

text \<open>
  A \<^verbatim>\<open>datetime.datetime\<close>: the civil fields, and \<open>tzinfo\<close>, which is \<open>None\<close> for a
  naive value and otherwise the UTC offset of a fixed-offset \<^verbatim>\<open>timezone\<close>, in
  microseconds (\<open>Some 0\<close> is \<^verbatim>\<open>timezone.utc\<close>).
\<close>

record datetime =
  year :: nat
  month :: nat
  day :: nat
  hour :: nat
  minute :: nat
  second :: nat
  microsecond :: nat
  tzinfo :: "int option"

definition is_leap :: "nat \<Rightarrow> bool" where
  "is_leap y = (y mod 4 = 0 \<and> (y mod 100 \<noteq> 0 \<or> y mod 400 = 0))"

definition days_in_month :: "nat \<Rightarrow> nat \<Rightarrow> nat" where
  "days_in_month y m =
     (if m = 2 then (if is_leap y then 29 else 28)
      else if m = 4 \<or> m = 6 \<or> m = 9 \<or> m = 11 then 30 else 31)"

definition DAY_US :: int where "DAY_US = 86400000000"

text \<open>The values the \<^verbatim>\<open>datetime\<close> constructor accepts.\<close>

definition valid_datetime :: "datetime \<Rightarrow> bool" where
  "valid_datetime d =
     (1 \<le> year d \<and> year d \<le> 9999 \<and> 1 \<le> month d \<and> month d \<le> 12
      \<and> 1 \<le> day d \<and> day d \<le> days_in_month (year d) (month d)
      \<and> hour d < 24 \<and> minute d < 60 \<and> second d < 60 \<and> microsecond d < 1000000
      \<and> (case tzinfo d of None \<Rightarrow> True | Some off \<Rightarrow> - DAY_US < off \<and> off < DAY_US))"

text \<open>The proleptic Gregorian ordinal of a date, 0001-01-01 being day 1 (\<^verbatim>\<open>toordinal\<close>).\<close>

definition days_before_year :: "nat \<Rightarrow> int" where
  "days_before_year y =
     (let p = int y - 1 in p * 365 + p div 4 - p div 100 + p div 400)"

definition days_before_month :: "nat \<Rightarrow> nat \<Rightarrow> int" where
  "days_before_month y m = int (sum_list (map (days_in_month y) [1..<m]))"

definition ymd2ord :: "nat \<Rightarrow> nat \<Rightarrow> nat \<Rightarrow> int" where
  "ymd2ord y m d = days_before_year y + days_before_month y m + int d"

definition time_us :: "datetime \<Rightarrow> int" where
  "time_us d =
     ((int (hour d) * 60 + int (minute d)) * 60 + int (second d)) * 1000000
       + int (microsecond d)"

definition utcoffset :: "datetime \<Rightarrow> int" where
  "utcoffset d = (case tzinfo d of None \<Rightarrow> 0 | Some off \<Rightarrow> off)"

text \<open>
  The instant a datetime denotes, in microseconds: its civil time less its UTC offset.
  Two aware datetimes are ordered by their instants; two naive ones by their civil
  times, which is the instant at offset 0.
\<close>

definition utc_micros :: "datetime \<Rightarrow> int" where
  "utc_micros d =
     ymd2ord (year d) (month d) (day d) * DAY_US + time_us d - utcoffset d"

datatype py_error =
    ValueError | KeyError | TypeError | OverflowError | AttributeError
  | ClistApiError string

section \<open>Contests\<close>

record Contest =
  contest_id :: int
  title :: string
  start :: datetime
  end_dt :: datetime
  url :: string
  resource_id :: int
  resource_name :: string

subsection \<open>deduplicate_contests and the sort on start\<close>

text \<open>
  A Python \<^verbatim>\<open>dict\<close> keeps its keys in the order of their first insertion;
  \<^verbatim>\<open>d[k] = v\<close> on a key already present replaces the value in place.
\<close>

fun dict_set :: "('k \<times> 'v) list \<Rightarrow> 'k \<Rightarrow> 'v \<Rightarrow> ('k \<times> 'v) list" where
  "dict_set [] k v = [(k, v)]"
| "dict_set ((k', v') # rest) k v =
     (if k' = k then (k', v) # rest else (k', v') # dict_set rest k v)"

definition dict_values :: "('k \<times> 'v) list \<Rightarrow> 'v list" where
  "dict_values d = map snd d"

definition deduplicate_contests :: "Contest list \<Rightarrow> Contest list" where
  "deduplicate_contests contests =
     dict_values (foldl (\<lambda>by_id contest. dict_set by_id (contest_id contest) contest) [] contests)"

text \<open>
  \<^verbatim>\<open>deduped.sort(key=lambda contest: contest.start)\<close>: a stable sort on the start
  instants. Ordering a naive against an aware datetime raises \<^verbatim>\<open>TypeError\<close>, and a
  sort of a list that holds both has to compare such a pair.
\<close>

definition sort_by_start :: "Contest list \<Rightarrow> py_error + Contest list" where
  "sort_by_start cs =
     (if (\<exists>a \<in> set cs. tzinfo (start a) = None) \<and> (\<exists>b \<in> set cs. tzinfo (start b) \<noteq> None)
      then Inl TypeError
      else Inr (sort_key (\<lambda>c. utc_micros (start c)) cs))"

definition dedup_and_sort :: "Contest list \<Rightarrow> py_error + Contest list" where
  "dedup_and_sort contests = sort_by_start (deduplicate_contests contests)"

text \<open>The order of first occurrence of the elements of a list.\<close>

definition first_occurrences :: "'a list \<Rightarrow> 'a list" where
  "first_occurrences xs = rev (remdups (rev xs))"

text \<open>Three contests for the examples; the first and the last share the id 42.\<close>

definition utc_dt :: "nat \<Rightarrow> nat \<Rightarrow> nat \<Rightarrow> nat \<Rightarrow> nat \<Rightarrow> nat \<Rightarrow> datetime" where
  "utc_dt y mo d h mi s =
     \<lparr>year = y, month = mo, day = d, hour = h, minute = mi, second = s,
      microsecond = 0, tzinfo = Some 0\<rparr>"

definition mk_contest :: "int \<Rightarrow> string \<Rightarrow> datetime \<Rightarrow> Contest" where
  "mk_contest i t s =
     \<lparr>contest_id = i, title = t, start = s, end_dt = s, url = [],
      resource_id = 1, resource_name = ''Codeforces''\<rparr>"

definition sample_contests :: "Contest list" where
  "sample_contests =
     [mk_contest 42 ''Div 2'' (utc_dt 2025 1 2 0 0 0),
      mk_contest 7 ''Beginner'' (utc_dt 2025 1 1 0 0 0),
      mk_contest 42 ''Div 2 (rescheduled)'' (utc_dt 2025 1 1 0 0 0)]"

text \<open>The last record of a list with a given id.\<close>

definition last_with_id :: "Contest list \<Rightarrow> int \<Rightarrow> Contest" where
  "last_with_id cs k = last (filter (\<lambda>c. contest_id c = k) cs)"

section \<open>Python values decoded from JSON\<close>

text \<open>
  What \<^verbatim>\<open>json.loads\<close> returns: \<^verbatim>\<open>None\<close>, a bool, an int, a str, a list or a dict (a
  dict as the list of its items, each key once, in order). Floats are left out.
\<close>

datatype json =
    JNull | JBool bool | JInt int | JStr string | JList "json list"
  | JObj "(string \<times> json) list"

text \<open>Truth value testing (\<^verbatim>\<open>if x\<close>, \<^verbatim>\<open>not x\<close>, \<^verbatim>\<open>x or y\<close>).\<close>

fun truthy :: "json \<Rightarrow> bool" where
  "truthy JNull = False"
| "truthy (JBool b) = b"
| "truthy (JInt i) = (i \<noteq> 0)"
| "truthy (JStr s) = (s \<noteq> [])"
| "truthy (JList l) = (l \<noteq> [])"
| "truthy (JObj items) = (items \<noteq> [])"

definition py_or :: "json \<Rightarrow> json \<Rightarrow> json" where
  "py_or a b = (if truthy a then a else b)"

text \<open>\<^verbatim>\<open>d.get(key)\<close> on a dict: \<^verbatim>\<open>None\<close> when the key is absent.\<close>

definition dict_get :: "(string \<times> json) list \<Rightarrow> string \<Rightarrow> json" where
  "dict_get items key = (case map_of items key of None \<Rightarrow> JNull | Some v \<Rightarrow> v)"

text \<open>
  \<^verbatim>\<open>str(x)\<close>: a str is returned as it is; the \<^verbatim>\<open>repr\<close> of a list or dict is left to
  the parameter \<open>repr\<close>.
\<close>

fun py_str :: "(json \<Rightarrow> string) \<Rightarrow> json \<Rightarrow> string" where
  "py_str repr JNull = ''None''"
| "py_str repr (JBool b) = (if b then ''True'' else ''False'')"
| "py_str repr (JInt i) = str_int i"
| "py_str repr (JStr s) = s"
| "py_str repr (JList l) = repr (JList l)"
| "py_str repr (JObj items) = repr (JObj items)"

text \<open>
  \<^verbatim>\<open>isspace\<close> on the code points below 256, and \<^verbatim>\<open>s.strip()\<close>.
\<close>

definition is_space :: "char \<Rightarrow> bool" where
  "is_space c =
     (let n = of_char c :: nat
      in (9 \<le> n \<and> n \<le> 13) \<or> (28 \<le> n \<and> n \<le> 32) \<or> n = 133 \<or> n = 160)"

definition strip :: "string \<Rightarrow> string" where
  "strip s = rev (dropWhile is_space (rev (dropWhile is_space s)))"

definition is_ascii_digit :: "char \<Rightarrow> bool" where
  "is_ascii_digit c = (let n = of_char c :: nat in 48 \<le> n \<and> n \<le> 57)"

definition digit_value :: "char \<Rightarrow> nat" where
  "digit_value c = of_char c - 48"

definition decimal_value :: "string \<Rightarrow> nat" where
  "decimal_value s = foldl (\<lambda>acc c. acc * 10 + digit_value c) 0 s"

text \<open>
  \<^verbatim>\<open>int(s)\<close> for a str: surrounding whitespace is ignored, then an optional sign and
  decimal digits, where single underscores may separate digits. \<open>None\<close> stands for
  \<^verbatim>\<open>ValueError\<close>. (The limit on the number of digits of recent interpreters is not modelled.)
\<close>

fun grouped_digits :: "string \<Rightarrow> bool" where
  "grouped_digits [] = False"
| "grouped_digits [c] = is_ascii_digit c"
| "grouped_digits (c # d # cs) =
     (is_ascii_digit c \<and>
      (if d = CHR ''_'' then grouped_digits cs else grouped_digits (d # cs)))"

definition int_of_str :: "string \<Rightarrow> int option" where
  "int_of_str s =
     (let t = strip s;
          neg = (t \<noteq> [] \<and> hd t = CHR ''-'');
          body = (if t \<noteq> [] \<and> (hd t = CHR ''-'' \<or> hd t = CHR ''+'') then tl t else t)
      in if grouped_digits body
         then (let v = int (decimal_value (filter (\<lambda>c. c \<noteq> CHR ''_'') body))
               in Some (if neg then - v else v))
         else None)"

text \<open>\<^verbatim>\<open>int(x)\<close>\<close>

fun py_int :: "json \<Rightarrow> py_error + int" where
  "py_int (JInt i) = Inr i"
| "py_int (JBool b) = Inr (if b then 1 else 0)"
| "py_int (JStr s) = (case int_of_str s of None \<Rightarrow> Inl ValueError | Some i \<Rightarrow> Inr i)"
| "py_int JNull = Inl TypeError"
| "py_int (JList l) = Inl TypeError"
| "py_int (JObj items) = Inl TypeError"

section \<open>Parsing timestamps\<close>

text \<open>
  The library functions the parser uses and the repository does not define, as
  parameters: \<^verbatim>\<open>datetime.fromisoformat\<close> and \<^verbatim>\<open>datetime.strptime\<close> with the format
  \<^verbatim>\<open>%Y-%m-%dT%H:%M:%S\<close> (\<open>None\<close> stands for their \<^verbatim>\<open>ValueError\<close>), and \<^verbatim>\<open>repr\<close> of a
  list or dict.
\<close>

record pylib =
  fromisoformat :: "string \<Rightarrow> datetime option"
  strptime_iso :: "string \<Rightarrow> datetime option"
  repr_container :: "json \<Rightarrow> string"

text \<open>The day before and the day after a date (year, month, day).\<close>

definition prev_day :: "nat \<times> nat \<times> nat \<Rightarrow> nat \<times> nat \<times> nat" where
  "prev_day ymd =
     (case ymd of (y, m, d) \<Rightarrow>
        if 1 < d then (y, m, d - 1)
        else if 1 < m then (y, m - 1, days_in_month y (m - 1))
        else (y - 1, 12, 31))"

definition next_day :: "nat \<times> nat \<times> nat \<Rightarrow> nat \<times> nat \<times> nat" where
  "next_day ymd =
     (case ymd of (y, m, d) \<Rightarrow>
        if d < days_in_month y m then (y, m, d + 1)
        else if m < 12 then (y, m + 1, 1)
        else (y + 1, 1, 1))"

definition with_date_time :: "datetime \<Rightarrow> nat \<times> nat \<times> nat \<Rightarrow> int \<Rightarrow> datetime" where
  "with_date_time d ymd t =
     (case ymd of (y, m, dd) \<Rightarrow>
        \<lparr>year = y, month = m, day = dd,
         hour = nat (t div 3600000000), minute = nat (t div 60000000 mod 60),
         second = nat (t div 1000000 mod 60), microsecond = nat (t mod 1000000),
         tzinfo = Some 0\<rparr>)"

text \<open>
  \<^verbatim>\<open>value.astimezone(timezone.utc)\<close> on an aware datetime: the same instant at offset 0.
  The offset is less than a day, so the date moves by at most one day; a result before
  0001-01-01 or after 9999-12-31 raises \<^verbatim>\<open>OverflowError\<close>.
\<close>

definition astimezone_utc :: "datetime \<Rightarrow> py_error + datetime" where
  "astimezone_utc d =
     (let t = time_us d - utcoffset d; ymd = (year d, month d, day d)
      in if t < 0 then
           (if ymd = (1, 1, 1) then Inl OverflowError
            else Inr (with_date_time d (prev_day ymd) (t + DAY_US)))
         else if DAY_US \<le> t then
           (if ymd = (9999, 12, 31) then Inl OverflowError
            else Inr (with_date_time d (next_day ymd) (t - DAY_US)))
         else Inr (with_date_time d ymd t))"

definition parse_iso_datetime :: "pylib \<Rightarrow> string \<Rightarrow> py_error + datetime" where
  "parse_iso_datetime lib value0 =
     (let val = (if value0 \<noteq> [] \<and> last value0 = CHR ''Z''
                 then butlast value0 @ ''+00:00'' else value0)
      in case (case fromisoformat lib val of
                 Some p \<Rightarrow> Some p
               | None \<Rightarrow>
                   (case strptime_iso lib val of
                      None \<Rightarrow> None
                    | Some p \<Rightarrow> Some (p\<lparr>tzinfo := Some 0\<rparr>))) of
           None \<Rightarrow> Inl ValueError
         | Some parsed \<Rightarrow>
             astimezone_utc (if tzinfo parsed = None then parsed\<lparr>tzinfo := Some 0\<rparr> else parsed))"

section \<open>parse_contest\<close>

definition parse_contest :: "pylib \<Rightarrow> json \<Rightarrow> py_error + Contest" where
  "parse_contest lib payload =
     (case payload of
        JObj p \<Rightarrow>
          (case map_of p ''id'' of
             None \<Rightarrow> Inl KeyError
           | Some idv \<Rightarrow>
          (case py_int idv of
             Inl e \<Rightarrow> Inl e
           | Inr cid \<Rightarrow>
          (let title0 = py_str (repr_container lib)
                 (py_or (dict_get p ''event'')
                   (py_or (dict_get p ''title'') (JStr (''Contest '' @ str_int cid))))
           in case parse_iso_datetime lib (py_str (repr_container lib) (dict_get p ''start'')) of
             Inl e \<Rightarrow> Inl e
           | Inr start_dt \<Rightarrow>
          (case parse_iso_datetime lib (py_str (repr_container lib) (dict_get p ''end'')) of
             Inl e \<Rightarrow> Inl e
           | Inr end_dt' \<Rightarrow>
          (let href = py_str (repr_container lib)
                 (py_or (dict_get p ''href'')
                   (py_or (dict_get p ''event_url'') (py_or (dict_get p ''url'') (JStr ''''))));
               resource_field = dict_get p ''resource'';
               resource_info = (case resource_field of JObj r \<Rightarrow> r | _ \<Rightarrow> [])
           in case py_int (py_or (dict_get p ''resource_id'')
                            (py_or (dict_get resource_info ''id'') (JInt 0))) of
             Inl e \<Rightarrow> Inl e
           | Inr rid \<Rightarrow>
          (let rname = py_str (repr_container lib)
                 (py_or (dict_get resource_info ''name'')
                   (py_or (dict_get resource_info ''short_name'')
                     (py_or (dict_get resource_info ''host'')
                       (py_or resource_field (JStr (''Resource '' @ str_int rid))))))
           in Inr \<lparr>contest_id = cid, title = strip title0, start = start_dt,
                    end_dt = end_dt', url = strip href, resource_id = rid,
                    resource_name = strip rname\<rparr>))))))
      | _ \<Rightarrow> Inl TypeError)"

section \<open>fetch_contests_for_resource\<close>

definition PAGE_SIZE :: int where "PAGE_SIZE = 100"

text \<open>
  The external API, for one resource filter and one set of time bounds: the reply to
  the \<open>k\<close>-th request of a fetch (counted from 0), given its \<open>offset\<close> and \<open>limit\<close>
  parameters; either the decoded JSON body or the \<^verbatim>\<open>ClistApiError\<close> of \<^verbatim>\<open>api_get\<close>.
\<close>

type_synonym api = "nat \<Rightarrow> nat \<Rightarrow> int \<Rightarrow> py_error + json"

text \<open>
  A request as it was issued: its offset, its limit, and the number of contests
  accumulated when it was issued.
\<close>

record request =
  req_offset :: nat
  req_limit :: int
  req_count :: nat

text \<open>
  The state of the loop: the contests fetched so far, the offset, the requests issued so
  far, and the payloads skipped with a diagnostic so far.
\<close>

record fetch_state =
  fetched :: "Contest list"
  offset :: nat
  requests :: "request list"
  skipped :: "json list"

text \<open>\<^verbatim>\<open>for payload in objects\<close>: the items a value yields when iterated.\<close>

fun py_iter :: "json \<Rightarrow> py_error + json list" where
  "py_iter (JList l) = Inr l"
| "py_iter (JStr s) = Inr (map (\<lambda>c. JStr [c]) s)"
| "py_iter (JObj items) = Inr (map (\<lambda>kv. JStr (fst kv)) items)"
| "py_iter JNull = Inl TypeError"
| "py_iter (JBool b) = Inl TypeError"
| "py_iter (JInt i) = Inl TypeError"

text \<open>
  The \<^verbatim>\<open>for\<close> loop over one page. It ends at the end of the page (\<open>PageDone\<close>), by the
  \<^verbatim>\<open>return\<close> when the cap is reached (\<open>CapReached\<close>), or by an exception other than
  \<^verbatim>\<open>ValueError\<close> (\<open>PageRaised\<close>). A payload whose parse raises \<^verbatim>\<open>ValueError\<close> is
  reported and skipped.
\<close>

datatype page_result =
    PageDone "Contest list" "json list"
  | CapReached "Contest list" "json list"
  | PageRaised py_error "json list"

fun process_page :: "pylib \<Rightarrow> int \<Rightarrow> Contest list \<Rightarrow> json list \<Rightarrow> json list \<Rightarrow> page_result" where
  "process_page lib per_resource_limit acc skp [] = PageDone acc skp"
| "process_page lib per_resource_limit acc skp (payload # rest) =
     (case parse_contest lib payload of
        Inl ValueError \<Rightarrow> process_page lib per_resource_limit acc (skp @ [payload]) rest
      | Inl e \<Rightarrow> PageRaised e skp
      | Inr contest \<Rightarrow>
          (let acc' = acc @ [contest]
           in if per_resource_limit \<noteq> 0 \<and> per_resource_limit \<le> int (length acc')
              then CapReached acc' skp
              else process_page lib per_resource_limit acc' skp rest))"

text \<open>\<^verbatim>\<open>data.get("meta", {}).get("next")\<close>, as a truth value.\<close>

definition meta_next :: "(string \<times> json) list \<Rightarrow> py_error + bool" where
  "meta_next data =
     (case map_of data ''meta'' of
        None \<Rightarrow> Inr False
      | Some (JObj m) \<Rightarrow> Inr (truthy (dict_get m ''next''))
      | Some _ \<Rightarrow> Inl AttributeError)"

text \<open>One round of the \<^verbatim>\<open>while True\<close> loop: it either leaves the function or goes on.\<close>

datatype step_result =
    Stop "py_error + Contest list" fetch_state
  | Continue fetch_state

definition fetch_step :: "pylib \<Rightarrow> api \<Rightarrow> int \<Rightarrow> fetch_state \<Rightarrow> step_result" where
  "fetch_step lib call per_resource_limit st =
     (let remaining = (if per_resource_limit \<noteq> 0
                       then per_resource_limit - int (length (fetched st)) else PAGE_SIZE)
      in if per_resource_limit \<noteq> 0 \<and> remaining \<le> 0 then Stop (Inr (fetched st)) st
         else
          (let limit = (if per_resource_limit = 0 then PAGE_SIZE else min PAGE_SIZE remaining);
               st1 = st\<lparr>requests := requests st @
                        [\<lparr>req_offset = offset st, req_limit = limit,
                          req_count = length (fetched st)\<rparr>]\<rparr>
           in case call (length (requests st)) (offset st) limit of
                Inl e \<Rightarrow> Stop (Inl e) st1
              | Inr (JObj data) \<Rightarrow>
                  (let objects = (case map_of data ''objects'' of None \<Rightarrow> JList [] | Some v \<Rightarrow> v)
                   in if \<not> truthy objects then Stop (Inr (fetched st)) st1
                      else
                       (case py_iter objects of
                          Inl e \<Rightarrow> Stop (Inl e) st1
                        | Inr items \<Rightarrow>
                           (case process_page lib per_resource_limit (fetched st) (skipped st) items of
                              PageRaised e skp \<Rightarrow> Stop (Inl e) (st1\<lparr>skipped := skp\<rparr>)
                            | CapReached acc skp \<Rightarrow>
                                Stop (Inr acc) (st1\<lparr>fetched := acc, skipped := skp\<rparr>)
                            | PageDone acc skp \<Rightarrow>
                               (let st2 = st1\<lparr>fetched := acc, skipped := skp,
                                              offset := offset st + length items\<rparr>
                                in case meta_next data of
                                     Inl e \<Rightarrow> Stop (Inl e) st2
                                   | Inr False \<Rightarrow> Stop (Inr acc) st2
                                   | Inr True \<Rightarrow> Continue st2))))
              | Inr _ \<Rightarrow> Stop (Inl AttributeError) st1))"

text \<open>
  The loop, with fuel: \<open>None\<close> when the fuel runs out before the function returns or
  raises (the API can go on serving pages for ever).
\<close>

fun fetch_loop :: "nat \<Rightarrow> pylib \<Rightarrow> api \<Rightarrow> int \<Rightarrow> fetch_state \<Rightarrow> ((py_error + Contest list) \<times> fetch_state) option" where
  "fetch_loop 0 lib call per_resource_limit st = None"
| "fetch_loop (Suc n) lib call per_resource_limit st =
     (case fetch_step lib call per_resource_limit st of
        Stop r st' \<Rightarrow> Some (r, st')
      | Continue st' \<Rightarrow> fetch_loop n lib call per_resource_limit st')"

definition initial_state :: fetch_state where
  "initial_state = \<lparr>fetched = [], offset = 0, requests = [], skipped = []\<rparr>"

definition fetch_contests_for_resource ::
    "nat \<Rightarrow> pylib \<Rightarrow> api \<Rightarrow> int \<Rightarrow> ((py_error + Contest list) \<times> fetch_state) option" where
  "fetch_contests_for_resource fuel lib call per_resource_limit =
     fetch_loop fuel lib call per_resource_limit initial_state"

section \<open>Sample inputs\<close>

text \<open>
  A sample of the library: it reads \<^verbatim>\<open>YYYY-MM-DDTHH:MM:SS\<close>, alone or followed by an
  offset \<^verbatim>\<open>+HH:MM\<close> or \<^verbatim>\<open>-HH:MM\<close>, and nothing else. The examples below are run with it.
\<close>

definition digits_at :: "string \<Rightarrow> nat \<Rightarrow> nat \<Rightarrow> nat option" where
  "digits_at s i n =
     (let part = take n (drop i s)
      in if length part = n \<and> list_all is_ascii_digit part then Some (decimal_value part)
         else None)"

definition sample_civil :: "string \<Rightarrow> datetime option" where
  "sample_civil s =
     (case (digits_at s 0 4, digits_at s 5 2, digits_at s 8 2,
            digits_at s 11 2, digits_at s 14 2, digits_at s 17 2) of
        (Some y, Some mo, Some d, Some h, Some mi, Some sec) \<Rightarrow>
          if take 1 (drop 4 s) = ''-'' \<and> take 1 (drop 7 s) = ''-'' \<and> take 1 (drop 10 s) = ''T''
             \<and> take 1 (drop 13 s) = '':'' \<and> take 1 (drop 16 s) = '':''
          then Some \<lparr>year = y, month = mo, day = d, hour = h, minute = mi, second = sec,
                     microsecond = 0, tzinfo = None\<rparr>
          else None
      | _ \<Rightarrow> None)"

definition sample_fromisoformat :: "string \<Rightarrow> datetime option" where
  "sample_fromisoformat s =
     (case sample_civil s of
        None \<Rightarrow> None
      | Some d \<Rightarrow>
          if length s = 19 then (if valid_datetime d then Some d else None)
          else if length s = 25 \<and> take 1 (drop 22 s) = '':''
                  \<and> (take 1 (drop 19 s) = ''+'' \<or> take 1 (drop 19 s) = ''-'')
          then (case (digits_at s 20 2, digits_at s 23 2) of
                  (Some oh, Some om) \<Rightarrow>
                    (let off = (int oh * 3600 + int om * 60) * 1000000;
                         d' = d\<lparr>tzinfo := Some (if take 1 (drop 19 s) = ''-'' then - off else off)\<rparr>
                     in if valid_datetime d' \<and> om < 60 then Some d' else None)
                | _ \<Rightarrow> None)
          else None)"

definition sample_lib :: pylib where
  "sample_lib =
     \<lparr>fromisoformat = sample_fromisoformat,
      strptime_iso = (\<lambda>s. if length s = 19 then sample_fromisoformat s else None),
      repr_container = (\<lambda>v. ''[...]'')\<rparr>"

text \<open>A payload whose event is a single space.\<close>

definition blank_title_payload :: json where
  "blank_title_payload =
     JObj [(''id'', JInt 7), (''event'', JStr '' ''),
           (''start'', JStr ''2025-01-01T00:00:00Z''), (''end'', JStr ''2025-01-01T02:30:00Z''),
           (''resource'', JStr ''codeforces.com'')]"

text \<open>The payload of the specification's scenario, and the same payload without its id.\<close>

definition div2_payload :: json where
  "div2_payload =
     JObj [(''id'', JInt 42), (''event'', JStr ''Div 2''),
           (''start'', JStr ''2025-01-01T00:00:00Z''), (''end'', JStr ''2025-01-01T02:30:00Z''),
           (''resource'', JObj [(''name'', JStr ''Codeforces'')])]"

definition no_id_payload :: json where
  "no_id_payload =
     JObj [(''event'', JStr ''Div 2''),
           (''start'', JStr ''2025-01-01T00:00:00Z''), (''end'', JStr ''2025-01-01T02:30:00Z''),
           (''resource'', JObj [(''name'', JStr ''Codeforces'')])]"

text \<open>An API that serves one page, the payload without id followed by the good one.\<close>

definition one_page_api :: api where
  "one_page_api k off lim =
     Inr (JObj [(''objects'', JList [no_id_payload, div2_payload]),
                (''meta'', JObj [(''next'', JNull)])])"

section \<open>resolve_resource_filters\<close>

definition RESOURCE_ALIASES :: "(string \<times> string) list" where
  "RESOURCE_ALIASES =
     [(''leetcode'', ''leetcode.com''), (''nowcoder'', ''ac.nowcoder.com''),
      (''nk'', ''ac.nowcoder.com''), (''lc'', ''leetcode.com''),
      (''codeforces'', ''codeforces.com''), (''cf'', ''codeforces.com''),
      (''atcoder'', ''atcoder.jp''), (''ac'', ''atcoder.jp''),
      (''luogu'', ''luogu.com.cn''), (''lg'', ''luogu.com.cn'')]"

text \<open>
  \<^verbatim>\<open>s.lower()\<close> and \<^verbatim>\<open>s.isdigit()\<close> on the code points below 256. The capital letters
  are A to Z and U+00C0 to U+00DE without the multiplication sign U+00D7. The digits of
  \<^verbatim>\<open>isdigit\<close> are 0 to 9 and the superscripts U+00B2, U+00B3 and U+00B9.
\<close>

definition lower_char :: "char \<Rightarrow> char" where
  "lower_char c =
     (let n = of_char c :: nat
      in if (65 \<le> n \<and> n \<le> 90) \<or> (192 \<le> n \<and> n \<le> 222 \<and> n \<noteq> 215)
         then char_of (n + 32) else c)"

definition lower :: "string \<Rightarrow> string" where
  "lower s = map lower_char s"

definition is_digit_char :: "char \<Rightarrow> bool" where
  "is_digit_char c =
     (let n = of_char c :: nat
      in (48 \<le> n \<and> n \<le> 57) \<or> n = 178 \<or> n = 179 \<or> n = 185)"

definition isdigit :: "string \<Rightarrow> bool" where
  "isdigit s = (s \<noteq> [] \<and> list_all is_digit_char s)"

text \<open>A resolved filter: its key, and a hostname or a numeric id.\<close>

datatype filter_value = Host string | ResourceId int

type_synonym resource_filter = "string \<times> filter_value"

definition unknown_resource_message :: "string \<Rightarrow> string" where
  "unknown_resource_message v =
     ''Unknown resource '' @ [CHR 0x27] @ v @ [CHR 0x27]
       @ ''. Provide a known alias (leetcode/codeforces/atcoder/luogu), ''
       @ ''a host like codeforces.com, or a numeric resource ID.''"

definition NO_VALID_RESOURCES :: string where
  "NO_VALID_RESOURCES = ''No valid resources resolved. Check the provided resource filters.''"

text \<open>The body of the loop for one non-blank, stripped token: the \<^verbatim>\<open>key_val\<close> or the exception.\<close>

definition resolve_token :: "string \<Rightarrow> py_error + resource_filter" where
  "resolve_token v =
     (case map_of RESOURCE_ALIASES (lower v) of
        Some alias \<Rightarrow> Inr (''resource'', Host alias)
      | None \<Rightarrow>
          if isdigit v then
            (case int_of_str v of
               None \<Rightarrow> Inl ValueError
             | Some i \<Rightarrow> Inr (''resource_id'', ResourceId i))
          else if CHR ''.'' \<in> set v then Inr (''resource'', Host v)
          else Inl (ClistApiError (unknown_resource_message v)))"

fun resolve_loop ::
    "string list \<Rightarrow> resource_filter list \<Rightarrow> resource_filter set \<Rightarrow> py_error + resource_filter list" where
  "resolve_loop [] resolved seen = Inr resolved"
| "resolve_loop (raw # rest) resolved seen =
     (let v = strip raw
      in if v = [] then resolve_loop rest resolved seen
         else (case resolve_token v of
                 Inl e \<Rightarrow> Inl e
               | Inr key_val \<Rightarrow>
                   if key_val \<notin> seen
                   then resolve_loop rest (resolved @ [key_val]) (insert key_val seen)
                   else resolve_loop rest resolved seen))"

definition resolve_resource_filters :: "string list \<Rightarrow> py_error + resource_filter list" where
  "resolve_resource_filters resources =
     (case resolve_loop resources [] {} of
        Inl e \<Rightarrow> Inl e
      | Inr resolved \<Rightarrow>
          if resolved = [] then Inl (ClistApiError NO_VALID_RESOURCES) else Inr resolved)"

text \<open>The token made of the one character U+00B2, superscript two.\<close>

definition superscript_two :: string where
  "superscript_two = [CHR 0xB2]"

section \<open>Properties of the calendar text functions\<close>

subsection \<open>humanize_duration\<close>

lemma str_nat_nonempty: "str_nat n \<noteq> []"
  by (subst str_nat.simps) simp

lemma str_int_nonempty: "str_int i \<noteq> []"
  by (simp add: str_int_def str_nat_nonempty)

lemma digit_char_simps:
  "digit_char 0 = CHR ''0''" "digit_char 1 = CHR ''1''" "digit_char 2 = CHR ''2''"
  "digit_char 3 = CHR ''3''" "digit_char 4 = CHR ''4''" "digit_char 5 = CHR ''5''"
  "digit_char 6 = CHR ''6''" "digit_char 7 = CHR ''7''" "digit_char 8 = CHR ''8''"
  "digit_char 9 = CHR ''9''"
  by code_simp+

lemma humanize_duration_cases:
  "humanize_duration delta =
     (let s = max 0 (total_seconds_int delta);
          h = s div 3600; m = (s mod 3600) div 60; sec = s mod 60
      in if h \<noteq> 0 \<and> m \<noteq> 0 then str_int h @ ''h '' @ str_int m @ ''m''
         else if h \<noteq> 0 then str_int h @ ''h''
         else if m \<noteq> 0 then str_int m @ ''m''
         else if sec \<noteq> 0 then str_int sec @ ''s''
         else ''0m'')"
  by (simp add: humanize_duration_def Let_def max_def str_int_nonempty mod_mod_cancel)

text \<open>Below \<open>2\<^sup>3\<^sup>4\<close> seconds the rounding to a double never reaches the next whole second.\<close>

lemma bit_length_le: "n < 2 ^ m \<Longrightarrow> bit_length n \<le> m"
proof (induction n arbitrary: m rule: bit_length.induct)
  case (1 n)
  show ?case
  proof (cases "n = 0")
    case True
    then show ?thesis by (simp add: bit_length.simps)
  next
    case False
    then obtain m' where m: "m = Suc m'" using 1(2) by (cases m) auto
    with 1(2) have "n div 2 < 2 ^ m'" by auto
    with 1(1) False have "bit_length (n div 2) \<le> m'" by blast
    with False m show ?thesis by (subst bit_length.simps) simp
  qed
qed

lemma round_half_even_bounds:
  "0 < q \<Longrightarrow> p div q \<le> round_half_even p q \<and> round_half_even p q \<le> p div q + 1"
  by (simp add: round_half_even_def Let_def)

lemma round_half_even_up:
  "round_half_even p q \<noteq> p div q \<Longrightarrow> q \<le> 2 * (p mod q)"
  by (simp add: round_half_even_def Let_def split: if_splits)

lemma round_scaled_arith:
  fixes X d s t :: nat
  assumes "X = d * 1000000 + s" and "X \<le> 999999 * t" and "1000000 \<le> 2 * s" and "524288 \<le> t"
  shows "d + 1 < t"
  using assms by linarith

lemma round_scaled:
  fixes r t :: nat
  assumes t: "524288 \<le> t" and r: "r < 1000000"
  shows "round_half_even (r * t) 1000000 < t"
proof -
  let ?q = "1000000::nat"
  let ?d = "r * t div ?q" and ?s = "r * t mod ?q"
  have X: "r * t = ?d * ?q + ?s" by simp
  have le: "r * t \<le> 999999 * t" using r by (intro mult_le_mono1) simp
  have d: "?d < t"
  proof -
    have "r * t < ?q * t" using r t by simp
    then show ?thesis by (simp add: less_mult_imp_div_less mult.commute)
  qed
  show ?thesis
  proof (cases "round_half_even (r * t) ?q = ?d")
    case True
    with d show ?thesis by simp
  next
    case False
    then have s: "?q \<le> 2 * ?s" by (rule round_half_even_up)
    have ub: "round_half_even (r * t) ?q \<le> ?d + 1"
      using round_half_even_bounds [of ?q "r * t"] by simp
    have "?d + 1 < t" using X le s t by (rule round_scaled_arith)
    with ub show ?thesis by simp
  qed
qed

lemma split_scaled: "(a * q + r) * t = a * t * q + r * (t::nat)"
  by (simp add: algebra_simps)

lemma truediv_int_exact:
  assumes p: "p < 2 ^ 34 * 1000000"
  shows "truediv_int p 1000000 = p div 1000000"
proof (cases "p = 0")
  case True
  then show ?thesis by (simp add: truediv_int_def)
next
  case False
  let ?q = "1000000::nat"
  define K where "K = 53 + bit_length ?q"
  define b where "b = bit_length (p * 2 ^ K div ?q)"
  have "p * 2 ^ K < 2 ^ (K + 34) * ?q"
    using p by (simp add: power_add)
  then have "p * 2 ^ K div ?q < 2 ^ (K + 34)"
    by (simp add: less_mult_imp_div_less)
  then have b: "b \<le> K + 34" unfolding b_def by (rule bit_length_le)
  define k where "k = K + 53 - b"
  have k: "19 \<le> k" using b by (simp add: k_def)
  have e: "int b - int K - 53 = - int k" using b by (simp add: k_def)
  have td: "truediv_int p ?q = round_half_even (p * 2 ^ k) ?q div 2 ^ k"
    using False k e by (simp add: truediv_int_def Let_def K_def[symmetric] b_def[symmetric])
  let ?t = "(2::nat) ^ k"
  let ?Q = "p div ?q" and ?r = "p mod ?q"
  have t: "524288 \<le> ?t"
  proof -
    have "(2::nat) ^ 19 \<le> 2 ^ k" using k by (intro power_increasing) simp_all
    then show ?thesis by simp
  qed
  have pd: "p * ?t = ?Q * ?t * ?q + ?r * ?t"
    using split_scaled [of ?Q ?q ?r ?t] by (simp only: div_mult_mod_eq)
  have dv: "p * ?t div ?q = ?Q * ?t + ?r * ?t div ?q"
    unfolding pd by simp
  have md: "p * ?t mod ?q = ?r * ?t mod ?q"
    unfolding pd by simp
  have ev: "even (?Q * ?t)" using k by simp
  have rh: "round_half_even (p * ?t) ?q = ?Q * ?t + round_half_even (?r * ?t) ?q"
    unfolding round_half_even_def Let_def dv md using ev by simp
  have "round_half_even (?r * ?t) ?q < ?t"
    using t by (intro round_scaled) simp_all
  then have "(?Q * ?t + round_half_even (?r * ?t) ?q) div ?t = ?Q"
    by simp
  with td rh show ?thesis by simp
qed

lemma bit_length_eq: "2 ^ b \<le> n \<Longrightarrow> n < 2 ^ Suc b \<Longrightarrow> bit_length n = Suc b"
proof (induction b arbitrary: n)
  case 0
  then have "n = 1" by simp
  then show ?case by (simp add: bit_length.simps)
next
  case (Suc b)
  from Suc.prems have "2 ^ b \<le> n div 2" "n div 2 < 2 ^ Suc b" by auto
  then have "bit_length (n div 2) = Suc b" by (rule Suc.IH)
  moreover from Suc.prems have "n \<noteq> 0" by auto
  ultimately show ?case by (subst bit_length.simps) simp
qed

lemma bit_length_million: "bit_length 1000000 = 20"
  using bit_length_eq [of 19 1000000] by simp

lemma bit_length_big:
  "bit_length 163204985647974929140600794260709 = 108"
  using bit_length_eq [of 107 163204985647974929140600794260709] by simp

lemma truediv_int_big: "truediv_int 17279999999999999 1000000 = 17280000000"
  by (simp add: truediv_int_def bit_length_million bit_length_big Let_def round_half_even_def)

lemma total_seconds_int_exact:
  assumes "delta < 2 ^ 34 * 1000000"
  shows "max 0 (total_seconds_int delta) = max 0 (delta div 1000000)"
proof (cases "delta < 0")
  case True
  then have "delta div 1000000 < 0" by simp
  with True show ?thesis by (simp add: total_seconds_int_def max_def)
next
  case False
  with assms have "nat delta < 2 ^ 34 * 1000000" by simp
  then have "truediv_int (nat delta) 1000000 = nat delta div 1000000"
    by (rule truediv_int_exact)
  with False show ?thesis
    by (simp add: total_seconds_int_def zdiv_int)
qed

lemma humanize_duration_below:
  "delta < 2 ^ 34 * 1000000 \<Longrightarrow> humanize_duration delta = humanize_spec delta"
  by (simp only: humanize_duration_cases humanize_spec_def total_seconds_int_exact)

lemma humanize_spec_2h30m: "humanize_spec (9000 * 1000000) = ''2h 30m''"
  by (simp add: humanize_spec_def Let_def str_int_def str_nat.simps digit_char_simps)

lemma humanize_duration_big: "humanize_duration 17279999999999999 = ''4800000h''"
  by (simp add: humanize_duration_cases total_seconds_int_def truediv_int_big Let_def
      str_int_def str_nat.simps digit_char_simps)

lemma humanize_spec_big: "humanize_spec 17279999999999999 = ''4799999h 59m''"
  by (simp add: humanize_spec_def Let_def str_int_def str_nat.simps digit_char_simps)

text \<open>
  Claim C9, as stated, fails: for a duration of 17279999999.999999 seconds (the contest
  from 1400-01-01T00:00:00Z to 1947-08-01T23:59:59.999999Z) the whole hours and minutes
  are 4799999h 59m, but \<^verbatim>\<open>total_seconds()\<close> rounds to 17280000000.0 and the code renders
  4800000h.
\<close>

theorem humanize_duration_counterexample:
  "humanize_duration 17279999999999999 = ''4800000h''
   \<and> humanize_spec 17279999999999999 = ''4799999h 59m''
   \<and> humanize_duration 17279999999999999 \<noteq> humanize_spec 17279999999999999"
  by (simp add: humanize_duration_big humanize_spec_big)

text \<open>
  Claim C9, amended. For every duration below \<open>2\<^sup>3\<^sup>4\<close> seconds (about 544 years; every
  negative duration is below), \<open>humanize_duration\<close> clamps a negative total to zero and,
  with \<open>h\<close> the whole hours, \<open>m\<close> the whole minutes of the rest and \<open>sec\<close> the seconds
  left, renders \<open><h>h <m>m\<close> when both are nonzero, \<open><h>h\<close> or \<open><m>m\<close> when only one
  is, \<open><sec>s\<close> when both are zero and the seconds are not, and \<open>0m\<close> when all three
  are zero. Two hours and thirty minutes render as \<open>2h 30m\<close>.
\<close>

theorem humanize_duration_amended:
  "delta < 2 ^ 34 * 1000000 \<Longrightarrow>
   humanize_duration delta =
     (let s = max 0 (delta div 1000000);
          h = s div 3600; m = (s mod 3600) div 60; sec = s mod 60
      in if h \<noteq> 0 \<and> m \<noteq> 0 then str_int h @ ''h '' @ str_int m @ ''m''
         else if h \<noteq> 0 then str_int h @ ''h''
         else if m \<noteq> 0 then str_int m @ ''m''
         else if sec \<noteq> 0 then str_int sec @ ''s''
         else ''0m'')"
  using humanize_duration_below [of delta] by (simp only: humanize_spec_def)

theorem humanize_duration_amended_witness:
  "(9000 * 1000000 :: int) < 2 ^ 34 * 1000000
   \<and> humanize_duration (9000 * 1000000) = ''2h 30m''
   \<and> humanize_duration (- 5000000) = ''0m''
   \<and> humanize_duration 59999999 = ''59s''"
proof -
  have a: "(9000 * 1000000 :: int) < 2 ^ 34 * 1000000" by simp
  have b: "(- 5000000 :: int) < 2 ^ 34 * 1000000" by simp
  have c: "(59999999 :: int) < 2 ^ 34 * 1000000" by simp
  show ?thesis
    using a humanize_duration_amended [OF a] humanize_duration_amended [OF b]
      humanize_duration_amended [OF c]
    by (simp add: Let_def str_int_def str_nat.simps digit_char_simps)
qed

subsection \<open>escape_ics_text\<close>

lemma replace_char_append:
  "replace_char c n (xs @ ys) = replace_char c n xs @ replace_char c n ys"
  by (induction xs) auto

lemma escape_ics_text_concat: "escape_ics_text v = concat (map escape_one v)"
  by (induction v)
    (auto simp: escape_ics_text_def escape_one_def replace_char_append BACKSLASH_def NEWLINE_def)

lemma unescaped_free_escape_one: "unescaped_free (escape_one c @ s) = unescaped_free s"
  by (cases s) (auto simp: escape_one_def BACKSLASH_def NEWLINE_def)

lemma unescaped_free_concat: "unescaped_free (concat (map escape_one v))"
  by (induction v) (auto simp: unescaped_free_escape_one)

lemma no_newline_concat: "NEWLINE \<notin> set (concat (map escape_one v))"
  by (induction v) (auto simp: escape_one_def BACKSLASH_def NEWLINE_def)

text \<open>
  Claim C6. \<open>escape_ics_text\<close> is the four substitutions in the order backslash,
  semicolon, comma, newline (its definition), and because the backslash comes first the
  result is the character-by-character escape of the input: no backslash introduced by a
  later substitution is escaped again. The output, read as escaped text, has no
  semicolon, comma or newline outside an escape, and it contains no newline character
  at all.
\<close>

theorem escape_ics_text_spec:
  "escape_ics_text v =
     replace_char NEWLINE [BACKSLASH, CHR ''n'']
       (replace_char (CHR '','') [BACKSLASH, CHR '','']
         (replace_char (CHR '';'') [BACKSLASH, CHR '';'']
           (replace_char BACKSLASH [BACKSLASH, BACKSLASH] v)))
   \<and> escape_ics_text v = concat (map escape_one v)
   \<and> unescaped_free (escape_ics_text v)
   \<and> NEWLINE \<notin> set (escape_ics_text v)"
  using unescaped_free_concat [of v] no_newline_concat [of v]
  by (simp add: escape_ics_text_concat [symmetric]) (simp add: escape_ics_text_def)

subsection \<open>fold_ics_line\<close>

lemma py_join_Cons: "py_join sep (x # ys) = x @ concat (map (\<lambda>y. sep @ y) ys)"
  by (induction ys arbitrary: x) auto

lemma drop3_CRLF: "drop 3 (CRLF @ c # t) = t"
  by (simp add: CRLF_def)

lemma drop77_CRLF: "length t = 74 \<Longrightarrow> drop 77 (CRLF @ c # t @ rest) = rest"
  by (simp add: CRLF_def)

lemma unfold_rest_fold_rest:
  "unfold_rest (concat (map (\<lambda>y. CRLF @ y) (fold_rest r))) = r"
proof (induction r rule: fold_rest.induct)
  case (1 r)
  show ?case
  proof (cases "r = []")
    case True
    then show ?thesis by (simp add: fold_rest.simps unfold_rest.simps)
  next
    case False
    let ?rest = "concat (map (\<lambda>y. CRLF @ y) (fold_rest (drop 74 r)))"
    let ?s = "CRLF @ CHR '' '' # take 74 r @ ?rest"
    have ih: "unfold_rest ?rest = drop 74 r" using 1 False by simp
    have st: "concat (map (\<lambda>y. CRLF @ y) (fold_rest r)) = ?s"
      using False by (subst fold_rest.simps) simp
    have ne: "?s \<noteq> []" by (simp add: CRLF_def)
    have un: "unfold_rest ?s = take 74 (take 74 r @ ?rest) @ unfold_rest (drop 77 ?s)"
      using ne by (subst unfold_rest.simps) (simp only: drop3_CRLF if_False)
    show ?thesis
    proof (cases "74 \<le> length r")
      case True
      then have "drop 77 ?s = ?rest" by (intro drop77_CRLF) simp
      with True ih un show ?thesis unfolding st by simp
    next
      case False
      then have "drop 74 r = []" by simp
      then have r: "?rest = []" by (subst fold_rest.simps) simp
      have "drop 77 ?s = []" using False unfolding r by (simp add: CRLF_def)
      with False un r show ?thesis unfolding st by (simp add: unfold_rest.simps)
    qed
  qed
qed

lemma unfold_fold: "unfold_ics_line (fold_ics_line line) = line"
proof (cases "length line \<le> 75")
  case True
  then show ?thesis by (simp add: fold_ics_line_def unfold_ics_line_def unfold_rest.simps)
next
  case False
  then show ?thesis
    by (simp add: fold_ics_line_def unfold_ics_line_def fold_segments_def py_join_Cons
        unfold_rest_fold_rest min_def)
qed

lemma fold_rest_segments:
  "seg \<in> set (fold_rest r) \<Longrightarrow> \<exists>payload. seg = CHR '' '' # payload \<and> payload \<noteq> [] \<and> length payload \<le> 74"
proof (induction r rule: fold_rest.induct)
  case (1 r)
  show ?case
  proof (cases "r = []")
    case True
    with 1(2) show ?thesis by (simp add: fold_rest.simps)
  next
    case False
    with 1(2) have "seg = CHR '' '' # take 74 r \<or> seg \<in> set (fold_rest (drop 74 r))"
      by (subst (asm) fold_rest.simps) auto
    then show ?thesis
    proof
      assume "seg = CHR '' '' # take 74 r"
      with False show ?thesis by simp
    next
      assume "seg \<in> set (fold_rest (drop 74 r))"
      with 1(1) False show ?thesis by simp
    qed
  qed
qed

lemma concat_tl_fold_rest: "concat (map tl (fold_rest r)) = r"
proof (induction r rule: fold_rest.induct)
  case (1 r)
  show ?case
  proof (cases "r = []")
    case True
    then show ?thesis by (simp add: fold_rest.simps)
  next
    case False
    with 1 show ?thesis by (subst fold_rest.simps) simp
  qed
qed

text \<open>
  Claim C7. Unfolding the output of \<open>fold_ics_line\<close> (dropping each inserted line break
  with the space that follows it) gives back the input, for every input. A line of at
  most 75 characters is returned unchanged. A longer line is the segments joined by
  carriage return and linefeed: the first segment is the first 75 characters, every
  later segment is a space followed by 1 to 74 characters of payload, and the first
  segment followed by the payloads is the input.
\<close>

theorem fold_ics_line_spec:
  "unfold_ics_line (fold_ics_line line) = line
   \<and> (length line \<le> 75 \<longrightarrow> fold_ics_line line = line)
   \<and> (75 < length line \<longrightarrow>
        fold_ics_line line = py_join CRLF (fold_segments line)
        \<and> hd (fold_segments line) = take 75 line
        \<and> length (hd (fold_segments line)) = 75
        \<and> (\<forall>seg \<in> set (tl (fold_segments line)).
              \<exists>payload. seg = CHR '' '' # payload \<and> payload \<noteq> [] \<and> length payload \<le> 74)
        \<and> concat (hd (fold_segments line) # map tl (tl (fold_segments line))) = line)"
proof -
  have a: "unfold_ics_line (fold_ics_line line) = line" by (rule unfold_fold)
  have b: "length line \<le> 75 \<longrightarrow> fold_ics_line line = line" by (simp add: fold_ics_line_def)
  have c: "75 < length line \<longrightarrow> fold_ics_line line = py_join CRLF (fold_segments line)"
    by (simp add: fold_ics_line_def)
  have d: "hd (fold_segments line) = take 75 line" by (simp add: fold_segments_def)
  have e: "75 < length line \<longrightarrow> length (hd (fold_segments line)) = 75"
    by (simp add: fold_segments_def)
  have f: "\<forall>seg \<in> set (tl (fold_segments line)).
              \<exists>payload. seg = CHR '' '' # payload \<and> payload \<noteq> [] \<and> length payload \<le> 74"
    using fold_rest_segments by (simp add: fold_segments_def)
  have g: "concat (hd (fold_segments line) # map tl (tl (fold_segments line))) = line"
    by (simp add: fold_segments_def concat_tl_fold_rest)
  from a b c d e f g show ?thesis by blast
qed

lemma long_line_segments:
  "fold_segments long_line =
     [replicate 75 (CHR ''a''), CHR '' '' # replicate 74 (CHR ''b''), CHR '' '' # replicate 11 (CHR ''c'')]"
  by code_simp

theorem fold_ics_line_spec_witness:
  "length ''SUMMARY:Codeforces: Div 2'' \<le> 75
   \<and> fold_ics_line ''SUMMARY:Codeforces: Div 2'' = ''SUMMARY:Codeforces: Div 2''
   \<and> 75 < length long_line
   \<and> CHR '' '' # replicate 11 (CHR ''c'') \<in> set (tl (fold_segments long_line))
   \<and> fold_ics_line long_line =
       replicate 75 (CHR ''a'') @ CRLF @ CHR '' '' # replicate 74 (CHR ''b'')
         @ CRLF @ CHR '' '' # replicate 11 (CHR ''c'')
   \<and> unfold_ics_line (fold_ics_line long_line) = long_line"
proof -
  have s: "length ''SUMMARY:Codeforces: Div 2'' \<le> 75" by simp
  have l: "75 < length long_line" by (simp add: long_line_def)
  have m: "CHR '' '' # replicate 11 (CHR ''c'') \<in> set (tl (fold_segments long_line))"
    by (simp add: long_line_segments)
  from fold_ics_line_spec [of "''SUMMARY:Codeforces: Div 2''"] s
  have 1: "fold_ics_line ''SUMMARY:Codeforces: Div 2'' = ''SUMMARY:Codeforces: Div 2''" by blast
  from fold_ics_line_spec [of long_line] l
  have 2: "fold_ics_line long_line = py_join CRLF (fold_segments long_line)"
    and 3: "unfold_ics_line (fold_ics_line long_line) = long_line" by blast+
  from 2 have 4: "fold_ics_line long_line =
       replicate 75 (CHR ''a'') @ CRLF @ CHR '' '' # replicate 74 (CHR ''b'')
         @ CRLF @ CHR '' '' # replicate 11 (CHR ''c'')"
    by (simp add: long_line_segments)
  from s l m 1 3 4 show ?thesis by blast
qed

section \<open>Properties of deduplication and sorting\<close>

lemma first_occurrences_snoc:
  "first_occurrences (xs @ [x]) =
     (if x \<in> set xs then first_occurrences xs else first_occurrences xs @ [x])"
  by (simp add: first_occurrences_def)

lemma set_first_occurrences: "set (first_occurrences xs) = set xs"
  by (simp add: first_occurrences_def)

lemma distinct_first_occurrences: "distinct (first_occurrences xs)"
  by (simp add: first_occurrences_def)

lemma dict_set_map:
  "distinct ks \<Longrightarrow>
   dict_set (map (\<lambda>k. (k, f k)) ks) k' v =
     (if k' \<in> set ks then map (\<lambda>k. (k, if k = k' then v else f k)) ks
      else map (\<lambda>k. (k, f k)) ks @ [(k', v)])"
  by (induction ks) auto

lemma last_with_id_snoc:
  "last_with_id (cs @ [c]) k = (if contest_id c = k then c else last_with_id cs k)"
  by (simp add: last_with_id_def)

lemma build_char:
  "foldl (\<lambda>by_id contest. dict_set by_id (contest_id contest) contest) [] cs =
     map (\<lambda>k. (k, last_with_id cs k)) (first_occurrences (map contest_id cs))"
proof (induction cs rule: rev_induct)
  case Nil
  then show ?case by (simp add: first_occurrences_def)
next
  case (snoc c cs)
  let ?ks = "first_occurrences (map contest_id cs)"
  have d: "distinct ?ks" by (rule distinct_first_occurrences)
  have s: "set ?ks = contest_id ` set cs" by (simp add: set_first_occurrences)
  show ?case
  proof (cases "contest_id c \<in> contest_id ` set cs")
    case True
    have "map (\<lambda>k. (k, last_with_id (cs @ [c]) k)) ?ks
          = map (\<lambda>k. (k, if k = contest_id c then c else last_with_id cs k)) ?ks"
      by (auto simp: last_with_id_snoc)
    with True show ?thesis
      using snoc d s
      by (simp add: dict_set_map first_occurrences_snoc)
  next
    case False
    then have "\<forall>k \<in> set ?ks. contest_id c \<noteq> k" using s by auto
    then have "map (\<lambda>k. (k, last_with_id (cs @ [c]) k)) ?ks = map (\<lambda>k. (k, last_with_id cs k)) ?ks"
      by (simp add: last_with_id_snoc)
    with False show ?thesis
      using snoc d s
      by (simp add: dict_set_map first_occurrences_snoc last_with_id_snoc)
  qed
qed

lemma dedup_char:
  "deduplicate_contests cs = map (last_with_id cs) (first_occurrences (map contest_id cs))"
  by (simp add: deduplicate_contests_def dict_values_def build_char comp_def)

lemma last_with_id_id:
  "k \<in> contest_id ` set cs \<Longrightarrow> contest_id (last_with_id cs k) = k \<and> last_with_id cs k \<in> set cs"
proof -
  assume "k \<in> contest_id ` set cs"
  then have ne: "filter (\<lambda>c. contest_id c = k) cs \<noteq> []"
    by (auto simp: filter_empty_conv)
  from last_in_set [OF ne] show ?thesis by (simp add: last_with_id_def)
qed

lemma dedup_ids:
  "map contest_id (deduplicate_contests cs) = first_occurrences (map contest_id cs)"
proof -
  have "\<forall>k \<in> set (first_occurrences (map contest_id cs)). contest_id (last_with_id cs k) = k"
    using last_with_id_id by (simp add: set_first_occurrences)
  then show ?thesis
    by (simp add: dedup_char comp_def map_idI)
qed

lemma dedup_members:
  "c \<in> set (deduplicate_contests cs) \<Longrightarrow>
     c \<in> set cs \<and> c = last (filter (\<lambda>x. contest_id x = contest_id c) cs)"
proof -
  assume "c \<in> set (deduplicate_contests cs)"
  then obtain k where k: "k \<in> contest_id ` set cs" and c: "c = last_with_id cs k"
    by (auto simp: dedup_char set_first_occurrences)
  from last_with_id_id [OF k] c have "contest_id c = k" "c \<in> set cs" by simp_all
  with c show ?thesis by (simp add: last_with_id_def)
qed

lemma sort_by_start_ok:
  assumes "(\<forall>c \<in> set cs. tzinfo (start c) \<noteq> None) \<or> (\<forall>c \<in> set cs. tzinfo (start c) = None)"
  shows "sort_by_start cs = Inr (sort_key (\<lambda>c. utc_micros (start c)) cs)"
  using assms by (auto simp: sort_by_start_def)

lemma dedup_subset: "set (deduplicate_contests cs) \<subseteq> set cs"
  using dedup_members by blast

text \<open>
  Claim C4. For every contest list whose start times can be ordered (all timezone-aware,
  as \<open>parse_contest\<close> produces them, or all naive), deduplication followed by the sort
  on start returns a list with exactly one contest for each distinct \<open>contest_id\<close> of
  the input: the last input record with that id. The list is in ascending order of
  start, and contests with the same start keep the order of the dedup mapping, which is
  the order in which the ids first occur in the input.
\<close>

theorem dedup_and_sort_spec:
  assumes "(\<forall>c \<in> set cs. tzinfo (start c) \<noteq> None) \<or> (\<forall>c \<in> set cs. tzinfo (start c) = None)"
  shows "\<exists>r. dedup_and_sort cs = Inr r
     \<and> distinct (map contest_id r)
     \<and> set (map contest_id r) = set (map contest_id cs)
     \<and> (\<forall>c \<in> set r. c \<in> set cs \<and> c = last (filter (\<lambda>x. contest_id x = contest_id c) cs))
     \<and> sorted (map (\<lambda>c. utc_micros (start c)) r)
     \<and> (\<forall>k. filter (\<lambda>c. utc_micros (start c) = k) r
            = filter (\<lambda>c. utc_micros (start c) = k) (deduplicate_contests cs))
     \<and> map contest_id (deduplicate_contests cs) = first_occurrences (map contest_id cs)"
proof -
  let ?key = "\<lambda>c. utc_micros (start c)"
  let ?d = "deduplicate_contests cs"
  let ?r = "sort_key ?key ?d"
  have cmp: "(\<forall>c \<in> set ?d. tzinfo (start c) \<noteq> None) \<or> (\<forall>c \<in> set ?d. tzinfo (start c) = None)"
    using assms dedup_subset [of cs] by blast
  have 1: "dedup_and_sort cs = Inr ?r"
    unfolding dedup_and_sort_def using cmp by (rule sort_by_start_ok)
  have ids: "map contest_id ?d = first_occurrences (map contest_id cs)" by (rule dedup_ids)
  have dd: "distinct (map contest_id ?d)" by (simp add: ids distinct_first_occurrences)
  have 2: "distinct (map contest_id ?r)"
    using dd by (simp add: distinct_map)
  have "set (map contest_id ?d) = set (map contest_id cs)"
    by (simp only: ids set_first_occurrences)
  then have 3: "set (map contest_id ?r) = set (map contest_id cs)" by simp
  have 4: "\<forall>c \<in> set ?r. c \<in> set cs \<and> c = last (filter (\<lambda>x. contest_id x = contest_id c) cs)"
    using dedup_members by simp
  have 5: "sorted (map ?key ?r)" by (rule sorted_sort_key)
  have 6: "\<forall>k. filter (\<lambda>c. ?key c = k) ?r = filter (\<lambda>c. ?key c = k) ?d"
    by (simp add: sort_key_stable)
  show ?thesis
    using 1 2 3 4 5 6 ids by (intro exI [of _ ?r] conjI)
qed

lemma sample_dedup:
  "deduplicate_contests sample_contests =
     [mk_contest 42 ''Div 2 (rescheduled)'' (utc_dt 2025 1 1 0 0 0),
      mk_contest 7 ''Beginner'' (utc_dt 2025 1 1 0 0 0)]"
  by (simp add: deduplicate_contests_def dict_values_def sample_contests_def mk_contest_def)

lemma sample_sorted:
  "dedup_and_sort sample_contests =
     Inr [mk_contest 42 ''Div 2 (rescheduled)'' (utc_dt 2025 1 1 0 0 0),
          mk_contest 7 ''Beginner'' (utc_dt 2025 1 1 0 0 0)]"
  by (simp add: dedup_and_sort_def sample_dedup sort_by_start_def mk_contest_def utc_dt_def)

theorem dedup_and_sort_spec_witness:
  "map (\<lambda>c. tzinfo (start c)) sample_contests = [Some 0, Some 0, Some 0]
   \<and> dedup_and_sort sample_contests =
       Inr [mk_contest 42 ''Div 2 (rescheduled)'' (utc_dt 2025 1 1 0 0 0),
            mk_contest 7 ''Beginner'' (utc_dt 2025 1 1 0 0 0)]
   \<and> (\<exists>r. dedup_and_sort sample_contests = Inr r \<and> distinct (map contest_id r)
          \<and> set (map contest_id r) = {42, 7})"
proof -
  have a: "\<forall>c \<in> set sample_contests. tzinfo (start c) \<noteq> None"
    by (simp add: sample_contests_def mk_contest_def utc_dt_def)
  then have h: "(\<forall>c \<in> set sample_contests. tzinfo (start c) \<noteq> None)
      \<or> (\<forall>c \<in> set sample_contests. tzinfo (start c) = None)" by blast
  have s: "set (map contest_id sample_contests) = {42, 7}"
    by (auto simp: sample_contests_def mk_contest_def)
  from dedup_and_sort_spec [OF h] obtain r where
    r: "dedup_and_sort sample_contests = Inr r" "distinct (map contest_id r)"
       "set (map contest_id r) = set (map contest_id sample_contests)" by blast
  from r s have "\<exists>r. dedup_and_sort sample_contests = Inr r \<and> distinct (map contest_id r)
          \<and> set (map contest_id r) = {42, 7}" by (intro exI [of _ r]) simp
  moreover have "map (\<lambda>c. tzinfo (start c)) sample_contests = [Some 0, Some 0, Some 0]"
    by (simp add: sample_contests_def mk_contest_def utc_dt_def)
  ultimately show ?thesis using sample_sorted by (intro conjI)
qed

section \<open>Properties of parsing and fetching\<close>

lemma strip_blank: "strip '' '' = []"
  by (simp add: strip_def is_space_def)

lemma sample_start:
  "parse_iso_datetime sample_lib ''2025-01-01T00:00:00Z'' = Inr (utc_dt 2025 1 1 0 0 0)"
  by (simp add: parse_iso_datetime_def sample_lib_def sample_fromisoformat_def sample_civil_def
      digits_at_def is_ascii_digit_def decimal_value_def digit_value_def valid_datetime_def
      days_in_month_def is_leap_def DAY_US_def astimezone_utc_def time_us_def utcoffset_def
      with_date_time_def utc_dt_def Let_def)

lemma sample_end:
  "parse_iso_datetime sample_lib ''2025-01-01T02:30:00Z'' = Inr (utc_dt 2025 1 1 2 30 0)"
  by (simp add: parse_iso_datetime_def sample_lib_def sample_fromisoformat_def sample_civil_def
      digits_at_def is_ascii_digit_def decimal_value_def digit_value_def valid_datetime_def
      days_in_month_def is_leap_def DAY_US_def astimezone_utc_def time_us_def utcoffset_def
      with_date_time_def utc_dt_def Let_def)

lemma parse_contest_div2:
  "parse_contest sample_lib div2_payload =
     Inr \<lparr>contest_id = 42, title = ''Div 2'', start = utc_dt 2025 1 1 0 0 0,
          end_dt = utc_dt 2025 1 1 2 30 0, url = [], resource_id = 0,
          resource_name = ''Codeforces''\<rparr>"
  by (simp add: parse_contest_def div2_payload_def sample_start sample_end dict_get_def
      py_or_def strip_def is_space_def Let_def)

lemma parse_contest_no_id: "parse_contest lib no_id_payload = Inl KeyError"
  by (simp add: parse_contest_def no_id_payload_def)

lemma process_page_skips_value_error:
  "parse_contest lib payload = Inl ValueError \<Longrightarrow>
   process_page lib lim acc skp (payload # rest) = process_page lib lim acc (skp @ [payload]) rest"
  by simp

text \<open>
  Claim C10 says the title of every accepted payload is non-empty. The fallback chain
  picks the first truthy value of \<open>event\<close>, \<open>title\<close> and \<open>Contest <id>\<close>, and the
  constructor strips it afterwards: a payload whose event is a single space is accepted
  with the empty title.
\<close>

theorem parse_contest_blank_title:
  "parse_contest sample_lib blank_title_payload =
     Inr \<lparr>contest_id = 7, title = [], start = utc_dt 2025 1 1 0 0 0,
          end_dt = utc_dt 2025 1 1 2 30 0, url = [], resource_id = 0,
          resource_name = ''codeforces.com''\<rparr>"
  by (simp add: parse_contest_def blank_title_payload_def sample_start sample_end dict_get_def
      py_or_def strip_def is_space_def Let_def)

text \<open>
  Claim C1 says a payload with a missing required field is dropped and the fetch goes
  on. \<open>parse_contest\<close> reads the id with \<^verbatim>\<open>payload["id"]\<close>, which raises \<^verbatim>\<open>KeyError\<close>
  when the field is missing; the loop catches \<^verbatim>\<open>ValueError\<close> only, so the fetch ends
  with the \<^verbatim>\<open>KeyError\<close> and the good payload after it is never parsed.
\<close>

theorem fetch_missing_id_aborts:
  "fetch_contests_for_resource 5 sample_lib one_page_api 50 =
     Some (Inl KeyError,
           \<lparr>fetched = [], offset = 0,
            requests = [\<lparr>req_offset = 0, req_limit = 50, req_count = 0\<rparr>], skipped = []\<rparr>)"
  by (simp add: fetch_contests_for_resource_def initial_state_def numeral_nat fetch_step_def
      one_page_api_def parse_contest_no_id PAGE_SIZE_def Let_def)

section \<open>Properties of resolve_resource_filters\<close>

lemma resolve_sample:
  "resolve_resource_filters [''cf'', ''codeforces.com'', '' '', ''123'', ''CF'', ''0123'', ''atcoder.jp '']
     = Inr [(''resource'', Host ''codeforces.com''), (''resource_id'', ResourceId 123),
            (''resource'', Host ''atcoder.jp'')]"
  by code_simp

lemma resolve_token_superscript: "resolve_token superscript_two = Inl ValueError"
  by (simp add: resolve_token_def superscript_two_def RESOURCE_ALIASES_def lower_def lower_char_def
      isdigit_def is_digit_char_def int_of_str_def strip_def is_space_def is_ascii_digit_def Let_def)

text \<open>
  Claim C5 says every token that is not blank and not an alias becomes a
  \<open>resource_id\<close> filter when it is all digits, a \<open>resource\<close> filter when it has a
  dot, and fails with the unknown-resource error otherwise. The code tests
  \<^verbatim>\<open>value.isdigit()\<close> and then calls \<^verbatim>\<open>int(value)\<close>; \<^verbatim>\<open>isdigit\<close> accepts superscript
  digits, which \<^verbatim>\<open>int\<close> rejects. For the token U+00B2 the function raises
  \<^verbatim>\<open>ValueError\<close>: neither a filter nor a \<^verbatim>\<open>ClistApiError\<close>.
\<close>

theorem resolve_superscript_digit: "resolve_resource_filters [superscript_two] = Inl ValueError"
proof -
  have "strip superscript_two = superscript_two"
    by (simp add: strip_def is_space_def superscript_two_def)
  moreover have "superscript_two \<noteq> []" by (simp add: superscript_two_def)
  ultimately show ?thesis
    by (simp add: resolve_resource_filters_def resolve_token_superscript)
qed

end
